theory Spec2Isabelle
  imports Complex_Main
begin

section \<open>JavaScript numbers\<close>

text \<open>
  A JavaScript Number is a finite double, one of the two infinities, or NaN. A finite
  double is represented by the real number it denotes, and the basic operations below
  give the exact real result on finite values: rounding to 53 bits is not modelled, and
  there is a single zero (measurements of the layout are never \<open>-0\<close>). What the formulas
  of the source do outside the finite numbers is written out: division by zero,
  \<open>Infinity - Infinity\<close>, the square root of a negative number, and the propagation of
  NaN. The range of the doubles is written out by \<open>double_range\<close>, which is applied
  where a result of the source leaves the range at inputs it can be given: in
  \<open>parseFloat\<close>, in \<open>Math.exp\<close> and to every result of \<open>calculateFalloff\<close>.
\<close>

datatype jsnum = Num real | PInf | NInf | NaN

fun js_neg :: "jsnum \<Rightarrow> jsnum" where
  "js_neg (Num a) = Num (- a)"
| "js_neg PInf = NInf"
| "js_neg NInf = PInf"
| "js_neg NaN = NaN"

fun js_add :: "jsnum \<Rightarrow> jsnum \<Rightarrow> jsnum" where
  "js_add NaN _ = NaN"
| "js_add _ NaN = NaN"
| "js_add (Num a) (Num b) = Num (a + b)"
| "js_add PInf NInf = NaN"
| "js_add NInf PInf = NaN"
| "js_add PInf _ = PInf"
| "js_add _ PInf = PInf"
| "js_add NInf _ = NInf"
| "js_add _ NInf = NInf"

definition js_sub :: "jsnum \<Rightarrow> jsnum \<Rightarrow> jsnum" where
  "js_sub x y = js_add x (js_neg y)"

text \<open>The sign of a number other than NaN: \<open>-1\<close>, \<open>0\<close> or \<open>1\<close>.\<close>

fun js_sign :: "jsnum \<Rightarrow> int" where
  "js_sign (Num a) = (if a < 0 then - 1 else if a = 0 then 0 else 1)"
| "js_sign PInf = 1"
| "js_sign NInf = - 1"
| "js_sign NaN = 0"

definition signed_inf :: "int \<Rightarrow> jsnum" where
  "signed_inf s = (if s < 0 then NInf else PInf)"

fun js_mul :: "jsnum \<Rightarrow> jsnum \<Rightarrow> jsnum" where
  "js_mul NaN _ = NaN"
| "js_mul _ NaN = NaN"
| "js_mul (Num a) (Num b) = Num (a * b)"
| "js_mul x y =
     (if js_sign x = 0 \<or> js_sign y = 0 then NaN else signed_inf (js_sign x * js_sign y))"

fun js_div :: "jsnum \<Rightarrow> jsnum \<Rightarrow> jsnum" where
  "js_div NaN _ = NaN"
| "js_div _ NaN = NaN"
| "js_div (Num a) (Num b) =
     (if b \<noteq> 0 then Num (a / b)
      else if a = 0 then NaN
      else if 0 < a then PInf else NInf)"
| "js_div (Num a) _ = Num 0"
| "js_div x (Num b) = signed_inf (js_sign x * (if b < 0 then - 1 else 1))"
| "js_div _ _ = NaN"

text \<open>\<open>x ** 2\<close>\<close>

fun js_square :: "jsnum \<Rightarrow> jsnum" where
  "js_square (Num a) = Num (a ^ 2)"
| "js_square PInf = PInf"
| "js_square NInf = PInf"
| "js_square NaN = NaN"

fun js_sqrt :: "jsnum \<Rightarrow> jsnum" where
  "js_sqrt (Num a) = (if a < 0 then NaN else Num (sqrt a))"
| "js_sqrt PInf = PInf"
| "js_sqrt NInf = NaN"
| "js_sqrt NaN = NaN"

fun js_ceil :: "jsnum \<Rightarrow> jsnum" where
  "js_ceil (Num a) = Num (of_int \<lceil>a\<rceil>)"
| "js_ceil x = x"

text \<open>
  The relational operators are false as soon as one operand is NaN.
\<close>

fun js_lt :: "jsnum \<Rightarrow> jsnum \<Rightarrow> bool" where
  "js_lt NaN _ = False"
| "js_lt _ NaN = False"
| "js_lt (Num a) (Num b) = (a < b)"
| "js_lt PInf _ = False"
| "js_lt _ PInf = True"
| "js_lt NInf NInf = False"
| "js_lt NInf _ = True"
| "js_lt _ NInf = False"

fun js_ge :: "jsnum \<Rightarrow> jsnum \<Rightarrow> bool" where
  "js_ge NaN _ = False"
| "js_ge _ NaN = False"
| "js_ge x y = (\<not> js_lt x y)"

text \<open>\<open>Math.max\<close> and \<open>Math.min\<close> of two arguments: NaN if either is NaN.\<close>

fun js_max :: "jsnum \<Rightarrow> jsnum \<Rightarrow> jsnum" where
  "js_max NaN _ = NaN"
| "js_max _ NaN = NaN"
| "js_max x y = (if js_lt x y then y else x)"

fun js_min :: "jsnum \<Rightarrow> jsnum \<Rightarrow> jsnum" where
  "js_min NaN _ = NaN"
| "js_min _ NaN = NaN"
| "js_min x y = (if js_lt y x then y else x)"

text \<open>
  The range of the doubles. The least positive double is \<open>2^-1074\<close>: a result of
  absolute value at most half of it is \<open>0\<close>. The greatest finite double is
  \<open>2^1024 - 2^971\<close>: a result of absolute value at least \<open>2^1024 - 2^970\<close>, half a unit
  beyond it, is an infinity.
\<close>

definition underflow :: "real \<Rightarrow> real" where
  "underflow a = (if \<bar>a\<bar> \<le> 1 / 2 ^ 1075 then 0 else a)"

fun double_range :: "jsnum \<Rightarrow> jsnum" where
  "double_range (Num a) =
     (if 2 ^ 1024 - 2 ^ 970 \<le> \<bar>a\<bar> then (if a < 0 then NInf else PInf)
      else Num (underflow a))"
| "double_range x = x"

text \<open>\<open>Math.exp\<close>\<close>

fun js_exp :: "jsnum \<Rightarrow> jsnum" where
  "js_exp (Num a) = double_range (Num (exp a))"
| "js_exp PInf = PInf"
| "js_exp NInf = Num 0"
| "js_exp NaN = NaN"

section \<open>The falloff curves\<close>

text \<open>
  \<open>calculateFalloff\<close> of \<open>VariableProximity\<close>, with the properties \<open>falloff\<close> and
  \<open>radius\<close> it closes over as arguments. The \<open>switch\<close> sends every string other than
  \<open>exponential\<close> and \<open>gaussian\<close> to the linear curve. Every quotient, difference and
  square is brought into the range of the doubles.
\<close>

definition range_div :: "jsnum \<Rightarrow> jsnum \<Rightarrow> jsnum" where
  "range_div x y = double_range (js_div x y)"

definition range_sub :: "jsnum \<Rightarrow> jsnum \<Rightarrow> jsnum" where
  "range_sub x y = double_range (js_sub x y)"

definition range_square :: "jsnum \<Rightarrow> jsnum" where
  "range_square x = double_range (js_square x)"

definition calculateFalloff :: "string \<Rightarrow> jsnum \<Rightarrow> jsnum \<Rightarrow> jsnum" where
  "calculateFalloff falloff radius distance =
     (let norm = js_min (js_max (range_sub (Num 1) (range_div distance radius)) (Num 0)) (Num 1)
      in if falloff = ''exponential'' then range_square norm
         else if falloff = ''gaussian'' then
           js_exp (range_div
                     (js_neg (range_square (range_div distance (range_div radius (Num 2)))))
                     (Num 2))
         else norm)"

section \<open>Strings\<close>

text \<open>
  A string is the list of its code units; the model covers code units below 256.
  \<open>split_on c\<close> is \<open>String.prototype.split\<close> with the one-character separator \<open>c\<close>:
  the result is never empty, and the empty string gives one empty piece.
\<close>

definition squote :: char where
  "squote = CHR 0x27"

definition dquote :: char where
  "dquote = CHR 0x22"

fun split_on :: "char \<Rightarrow> string \<Rightarrow> string list" where
  "split_on c [] = [[]]"
| "split_on c (x # xs) =
     (if x = c then [] # split_on c xs
      else (case split_on c xs of
              [] \<Rightarrow> [[x]]
            | w # ws \<Rightarrow> (x # w) # ws))"

text \<open>
  The white space and line terminators that \<open>trim\<close> and \<open>parseFloat\<close> skip: tab, line
  feed, vertical tab, form feed, carriage return, space and no-break space.
\<close>

definition js_is_space :: "char \<Rightarrow> bool" where
  "js_is_space c = (c \<in> set [CHR 0x09, CHR 0x0A, CHR 0x0B, CHR 0x0C, CHR 0x0D, CHR 0x20, CHR 0xA0])"

definition js_trim :: "string \<Rightarrow> string" where
  "js_trim s = rev (dropWhile js_is_space (rev (dropWhile js_is_space s)))"

text \<open>\<open>name.replace(/['"]/g, '')\<close>\<close>

definition strip_quotes :: "string \<Rightarrow> string" where
  "strip_quotes s = filter (\<lambda>c. c \<noteq> squote \<and> c \<noteq> dquote) s"

text \<open>\<open>Array.prototype.join\<close>\<close>

fun js_join :: "string \<Rightarrow> string list \<Rightarrow> string" where
  "js_join sep [] = []"
| "js_join sep [x] = x"
| "js_join sep (x # y # ys) = x @ sep @ js_join sep (y # ys)"

subsection \<open>parseFloat\<close>

text \<open>
  \<open>parseFloat\<close> skips leading white space and reads the longest prefix that is a decimal
  literal: an optional sign, then \<open>Infinity\<close> or digits with an optional fraction and an
  optional exponent. Without such a prefix, and for \<open>undefined\<close>, the result is NaN.
  The value of the literal is brought into the range of the doubles.
\<close>

definition is_digit :: "char \<Rightarrow> bool" where
  "is_digit c = (48 \<le> (of_char c :: nat) \<and> (of_char c :: nat) \<le> 57)"

definition digits_value :: "string \<Rightarrow> nat" where
  "digits_value ds = foldl (\<lambda>a c. 10 * a + ((of_char c :: nat) - 48)) 0 ds"

definition read_sign :: "string \<Rightarrow> real \<times> string" where
  "read_sign s =
     (case s of
        [] \<Rightarrow> (1, s)
      | c # r \<Rightarrow> if c = CHR ''+'' then (1, r) else if c = CHR ''-'' then (- 1, r) else (1, s))"

definition read_exponent :: "string \<Rightarrow> real" where
  "read_exponent s =
     (case s of
        [] \<Rightarrow> 1
      | c # r \<Rightarrow>
          if c = CHR ''e'' \<or> c = CHR ''E'' then
            (let (sg, t) = read_sign r; ds = takeWhile is_digit t
             in if ds = [] then 1
                else if sg < 0 then 1 / 10 ^ digits_value ds
                else 10 ^ digits_value ds)
          else 1)"

definition parseFloat :: "string option \<Rightarrow> jsnum" where
  "parseFloat v =
     (case v of
        None \<Rightarrow> NaN
      | Some str \<Rightarrow>
          (let (sg, s) = read_sign (dropWhile js_is_space str)
           in if take 8 s = ''Infinity'' then (if sg < 0 then NInf else PInf)
              else
                (let ip = takeWhile is_digit s;
                     r1 = dropWhile is_digit s;
                     (fp, r2) = (case r1 of
                                   [] \<Rightarrow> ([], r1)
                                 | c # t \<Rightarrow>
                                     if c = CHR ''.'' then (takeWhile is_digit t, dropWhile is_digit t)
                                     else ([], r1))
                 in if ip = [] \<and> fp = [] then NaN
                    else double_range
                           (Num (sg * (real (digits_value ip)
                                       + real (digits_value fp) / 10 ^ length fp)
                                    * read_exponent r2)))))"

subsection \<open>Number to string\<close>

text \<open>
  The string of a number in a template literal. An integer below \<open>2^53\<close> in absolute
  value is a double, and is printed with its decimal digits. The digits of any other finite
  number are the shortest that give its double back, which the real number does not
  determine: they are the parameter \<open>other\<close>.
\<close>

definition digit_char :: "nat \<Rightarrow> char" where
  "digit_char d = ''0123456789'' ! d"

fun nat_digits :: "nat \<Rightarrow> string" where
  "nat_digits n =
     (if n < 10 then [digit_char n]
      else nat_digits (n div 10) @ [digit_char (n mod 10)])"

declare nat_digits.simps [simp del]

definition number_to_string :: "(real \<Rightarrow> string) \<Rightarrow> jsnum \<Rightarrow> string" where
  "number_to_string other x =
     (case x of
        NaN \<Rightarrow> ''NaN''
      | PInf \<Rightarrow> ''Infinity''
      | NInf \<Rightarrow> ''-Infinity''
      | Num r \<Rightarrow>
          if r = of_int \<lfloor>r\<rfloor> \<and> \<bar>r\<bar> < 2 ^ 53 then
            (if r < 0 then ''-'' else []) @ nat_digits (nat \<bar>\<lfloor>r\<rfloor>\<bar>)
          else other r)"

section \<open>Parsing the axis specifications\<close>

text \<open>
  A JavaScript \<open>Map\<close> keeps its keys in the order of their first insertion; setting a key
  again replaces the value in place.
\<close>

fun map_set :: "('k \<times> 'v) list \<Rightarrow> 'k \<Rightarrow> 'v \<Rightarrow> ('k \<times> 'v) list" where
  "map_set [] k v = [(k, v)]"
| "map_set ((k', v') # m) k v =
     (if k' = k then (k, v) # m else (k', v') # map_set m k v)"

definition new_Map :: "('k \<times> 'v) list \<Rightarrow> ('k \<times> 'v) list" where
  "new_Map entries = foldl (\<lambda>m (k, v). map_set m k v) [] entries"

text \<open>
  One entry: \<open>const [name, value] = s.split(' ')\<close>. The split has at least one piece, so
  \<open>name\<close> is a string; \<open>value\<close> is \<open>undefined\<close> when there is no second piece.
\<close>

definition parse_entry :: "string \<Rightarrow> string \<times> jsnum" where
  "parse_entry s =
     (case split_on CHR '' '' s of
        [] \<Rightarrow> ([], NaN)
      | name # rest \<Rightarrow>
          (strip_quotes name, parseFloat (case rest of [] \<Rightarrow> None | value # _ \<Rightarrow> Some value)))"

text \<open>The pairs handed to \<open>new Map\<close>, one for each piece between commas.\<close>

definition spec_entries :: "string \<Rightarrow> (string \<times> jsnum) list" where
  "spec_entries settingsStr = map parse_entry (map js_trim (split_on CHR '','' settingsStr))"

definition parseSettings :: "string \<Rightarrow> (string \<times> jsnum) list" where
  "parseSettings settingsStr = new_Map (spec_entries settingsStr)"

record variation_axis =
  axis :: string
  fromValue :: jsnum
  toValue :: jsnum

definition parsedSettings :: "string \<Rightarrow> string \<Rightarrow> variation_axis list" where
  "parsedSettings fromFontVariationSettings toFontVariationSettings =
     (let fromSettings = parseSettings fromFontVariationSettings;
          toSettings = parseSettings toFontVariationSettings
      in map (\<lambda>(a, fv).
                \<lparr>axis = a, fromValue = fv,
                 toValue = (case map_of toSettings a of None \<Rightarrow> fv | Some tv \<Rightarrow> tv)\<rparr>)
             fromSettings)"

text \<open>
  The style string of a letter inside the radius, from the parsed axes and the falloff
  value.
\<close>

definition interpolatedValue :: "jsnum \<Rightarrow> variation_axis \<Rightarrow> jsnum" where
  "interpolatedValue falloffValue a =
     js_add (fromValue a) (js_mul (js_sub (toValue a) (fromValue a)) falloffValue)"

definition format_axis :: "(real \<Rightarrow> string) \<Rightarrow> jsnum \<Rightarrow> variation_axis \<Rightarrow> string" where
  "format_axis other falloffValue a =
     [squote] @ axis a @ [squote] @ '' ''
       @ number_to_string other (interpolatedValue falloffValue a)"

definition newSettings :: "(real \<Rightarrow> string) \<Rightarrow> variation_axis list \<Rightarrow> jsnum \<Rightarrow> string" where
  "newSettings other parsed falloffValue =
     js_join '', '' (map (format_axis other falloffValue) parsed)"

section \<open>The proximity text engine\<close>

record rect =
  rect_left :: jsnum
  rect_top :: jsnum
  rect_width :: jsnum
  rect_height :: jsnum

record point =
  point_x :: jsnum
  point_y :: jsnum

text \<open>
  The properties of \<open>VariableProximity\<close> that the engine reads. \<open>container\<close> is the
  bounding rectangle of \<open>containerRef.current\<close>, or \<open>None\<close> when no container element
  is configured.
\<close>

record props =
  fromFontVariationSettings :: string
  toFontVariationSettings :: string
  radius :: jsnum
  falloff :: string
  container :: "rect option"

text \<open>
  A letter element: its bounding rectangle and the string that the engine last assigned to
  the \<open>fontVariationSettings\<close> of its style.
\<close>

record letter =
  letter_rect :: rect
  fontVariationSettings :: string

text \<open>
  The references of one engine instance. An entry of \<open>letterRefs\<close> is \<open>None\<close> where
  the reference is null; \<open>interpolatedSettings\<close> is the sparse array
  \<open>interpolatedSettingsRef.current\<close>; \<open>lastPosition\<close> is \<open>None\<close> while its
  coordinates are null.
\<close>

record engine =
  mousePosition :: point
  lastPosition :: "point option"
  letterRefs :: "letter option list"
  interpolatedSettings :: "nat \<rightharpoonup> string"

text \<open>
  The distance is computed with the exact operations; coordinates on a page are far from
  the ends of the range of the doubles.
\<close>

definition calculateDistance :: "jsnum \<Rightarrow> jsnum \<Rightarrow> jsnum \<Rightarrow> jsnum \<Rightarrow> jsnum" where
  "calculateDistance x1 y1 x2 y2 =
     js_sqrt (js_add (js_square (js_sub x2 x1)) (js_square (js_sub y2 y1)))"

definition letter_center :: "props \<Rightarrow> letter \<Rightarrow> jsnum \<times> jsnum" where
  "letter_center p l =
     (let r = letter_rect l;
          letterCenterX = js_add (rect_left r) (js_div (rect_width r) (Num 2));
          letterCenterY = js_add (rect_top r) (js_div (rect_height r) (Num 2))
      in case container p of
           None \<Rightarrow> (letterCenterX, letterCenterY)
         | Some containerRect \<Rightarrow>
             (js_sub letterCenterX (rect_left containerRect),
              js_sub letterCenterY (rect_top containerRect)))"

definition letter_distance :: "props \<Rightarrow> point \<Rightarrow> letter \<Rightarrow> jsnum" where
  "letter_distance p mouse l =
     (let (letterCenterX, letterCenterY) = letter_center p l
      in calculateDistance (point_x mouse) (point_y mouse) letterCenterX letterCenterY)"

text \<open>
  The body of the \<open>forEach\<close> of the frame callback, for the letter reference at
  \<open>index\<close>: the new reference and the new array of interpolated settings.
\<close>

definition frame_letter ::
  "(real \<Rightarrow> string) \<Rightarrow> props \<Rightarrow> point \<Rightarrow> nat \<Rightarrow> letter option \<Rightarrow> (nat \<rightharpoonup> string)
     \<Rightarrow> letter option \<times> (nat \<rightharpoonup> string)" where
  "frame_letter other p mouse index letterRef interp =
     (case letterRef of
        None \<Rightarrow> (None, interp)
      | Some l \<Rightarrow>
          (let distance = letter_distance p mouse l
           in if js_ge distance (radius p) then
                (Some (l\<lparr>fontVariationSettings := fromFontVariationSettings p\<rparr>), interp)
              else
                (let falloffValue = calculateFalloff (falloff p) (radius p) distance;
                     ns = newSettings other
                            (parsedSettings (fromFontVariationSettings p)
                               (toFontVariationSettings p))
                            falloffValue
                 in (Some (l\<lparr>fontVariationSettings := ns\<rparr>), interp(index \<mapsto> ns)))))"

fun frame_loop ::
  "(real \<Rightarrow> string) \<Rightarrow> props \<Rightarrow> point \<Rightarrow> nat \<Rightarrow> letter option list \<Rightarrow> (nat \<rightharpoonup> string)
     \<Rightarrow> letter option list \<times> (nat \<rightharpoonup> string)" where
  "frame_loop other p mouse index [] interp = ([], interp)"
| "frame_loop other p mouse index (letterRef # rest) interp =
     (let (letterRef', interp') = frame_letter other p mouse index letterRef interp;
          (rest', interp'') = frame_loop other p mouse (Suc index) rest interp'
      in (letterRef' # rest', interp''))"

text \<open>The callback given to \<open>useAnimationFrame\<close>.\<close>

definition animation_frame :: "(real \<Rightarrow> string) \<Rightarrow> props \<Rightarrow> engine \<Rightarrow> engine" where
  "animation_frame other p e =
     (let mouse = mousePosition e;
          (refs, interp) = frame_loop other p mouse 0 (letterRefs e) (interpolatedSettings e)
      in e\<lparr>lastPosition := Some mouse, letterRefs := refs, interpolatedSettings := interp\<rparr>)"

subsection \<open>Rendering the label\<close>

text \<open>
  One rendered word: its letters, each with the index of its reference, and whether the
  word is followed by the span that holds a no-break space.
\<close>

record word_span =
  letters :: "(nat \<times> char) list"
  nbsp :: bool

fun render_words :: "nat \<Rightarrow> string list \<Rightarrow> word_span list" where
  "render_words letterIndex [] = []"
| "render_words letterIndex (word # rest) =
     \<lparr>letters = zip [letterIndex ..< letterIndex + length word] word, nbsp = (rest \<noteq> [])\<rparr>
       # render_words (letterIndex + length word) rest"

definition render_label :: "string \<Rightarrow> word_span list" where
  "render_label label = render_words 0 (split_on CHR '' '' label)"

text \<open>
  The rendered spans in document order: a glyph with its index, or the no-break space of a
  separator. Only glyphs carry a reference, so only glyphs are visited by the frame loop.
\<close>

datatype rendered = Glyph nat char | Separator

definition flat_spans :: "word_span list \<Rightarrow> rendered list" where
  "flat_spans ws =
     concat (map (\<lambda>w. map (\<lambda>(i, c). Glyph i c) (letters w)
                        @ (if nbsp w then [Separator] else [])) ws)"

fun glyph_indices :: "rendered list \<Rightarrow> nat list" where
  "glyph_indices [] = []"
| "glyph_indices (Glyph i c # rs) = i # glyph_indices rs"
| "glyph_indices (Separator # rs) = glyph_indices rs"

fun rendered_char :: "rendered \<Rightarrow> char" where
  "rendered_char (Glyph i c) = c"
| "rendered_char Separator = CHR '' ''"

section \<open>The radial hover accent\<close>

record accent_geometry =
  geo_R :: jsnum
  geo_D :: jsnum
  geo_delta :: jsnum
  geo_originY :: jsnum

text \<open>
  The four quantities that \<open>layout\<close> computes from the width and height of a pill, with the
  exact operations: where a quotient or a square root is not a double, the rounded values
  of the code can move a ceiling by one.
\<close>

definition pill_geometry :: "jsnum \<Rightarrow> jsnum \<Rightarrow> accent_geometry" where
  "pill_geometry w h =
     (let R = js_div (js_add (js_div (js_mul w w) (Num 4)) (js_mul h h)) (js_mul (Num 2) h);
          D = js_add (js_ceil (js_mul (Num 2) R)) (Num 2);
          delta = js_add
                    (js_ceil (js_sub R
                       (js_sqrt (js_max (Num 0)
                          (js_sub (js_mul R R) (js_div (js_mul w w) (Num 4)))))))
                    (Num 1);
          originY = js_sub D delta
      in \<lparr>geo_R = R, geo_D = D, geo_delta = delta, geo_originY = originY\<rparr>)"

text \<open>
  \<open>layout\<close> for one circle. The argument is the bounding rectangle of the parent element
  of the circle, \<open>None\<close> when the circle or its parent is missing; the result is \<open>None\<close>
  when \<open>layout\<close> returns without touching the circle.
\<close>

definition layout_circle :: "rect option \<Rightarrow> accent_geometry option" where
  "layout_circle parent =
     (case parent of
        None \<Rightarrow> None
      | Some r \<Rightarrow> Some (pill_geometry (rect_width r) (rect_height r)))"

section \<open>Mounting and unmounting the engine\<close>

text \<open>
  The two effects of the engine, run against a model of the host: the listeners registered
  on \<open>window\<close>, the handles of the animation-frame callbacks that are requested and not
  yet run or cancelled, and the counter the host draws new handles from. \<open>frameId\<close> is
  the variable of that name in \<open>useAnimationFrame\<close>, \<open>None\<close> while it is undefined.
\<close>

datatype handler = handleMouseMove | handleTouchMove

record world =
  eng :: engine
  window_listeners :: "(string \<times> handler) list"
  animation_frames :: "nat list"
  next_handle :: nat
  frameId :: "nat option"

definition requestAnimationFrame :: "world \<Rightarrow> nat \<times> world" where
  "requestAnimationFrame w =
     (next_handle w,
      w\<lparr>animation_frames := animation_frames w @ [next_handle w],
        next_handle := Suc (next_handle w)\<rparr>)"

definition cancelAnimationFrame :: "nat option \<Rightarrow> world \<Rightarrow> world" where
  "cancelAnimationFrame h w =
     (case h of
        None \<Rightarrow> w
      | Some i \<Rightarrow> w\<lparr>animation_frames := removeAll i (animation_frames w)\<rparr>)"

definition addEventListener :: "string \<Rightarrow> handler \<Rightarrow> world \<Rightarrow> world" where
  "addEventListener ty h w =
     (if (ty, h) \<in> set (window_listeners w) then w
      else w\<lparr>window_listeners := window_listeners w @ [(ty, h)]\<rparr>)"

definition removeEventListener :: "string \<Rightarrow> handler \<Rightarrow> world \<Rightarrow> world" where
  "removeEventListener ty h w = w\<lparr>window_listeners := removeAll (ty, h) (window_listeners w)\<rparr>"

text \<open>\<open>updatePosition\<close> of \<open>useMousePositionRef\<close>\<close>

definition updatePosition :: "props \<Rightarrow> jsnum \<Rightarrow> jsnum \<Rightarrow> engine \<Rightarrow> engine" where
  "updatePosition p x y e =
     (case container p of
        Some r \<Rightarrow>
          e\<lparr>mousePosition := \<lparr>point_x = js_sub x (rect_left r), point_y = js_sub y (rect_top r)\<rparr>\<rparr>
      | None \<Rightarrow> e\<lparr>mousePosition := \<lparr>point_x = x, point_y = y\<rparr>\<rparr>)"

text \<open>The effect of \<open>useMousePositionRef\<close> and the function it returns.\<close>

definition mouse_effect :: "world \<Rightarrow> world" where
  "mouse_effect w =
     addEventListener ''touchmove'' handleTouchMove
       (addEventListener ''mousemove'' handleMouseMove w)"

definition mouse_cleanup :: "world \<Rightarrow> world" where
  "mouse_cleanup w =
     removeEventListener ''touchmove'' handleTouchMove
       (removeEventListener ''mousemove'' handleMouseMove w)"

text \<open>The effect of \<open>useAnimationFrame\<close>, its \<open>loop\<close> and the function it returns.\<close>

definition frame_effect :: "world \<Rightarrow> world" where
  "frame_effect w = (let (i, w') = requestAnimationFrame w in w'\<lparr>frameId := Some i\<rparr>)"

definition loop :: "(real \<Rightarrow> string) \<Rightarrow> props \<Rightarrow> world \<Rightarrow> world" where
  "loop other p w =
     (let w1 = w\<lparr>eng := animation_frame other p (eng w)\<rparr>;
          (i, w2) = requestAnimationFrame w1
      in w2\<lparr>frameId := Some i\<rparr>)"

definition frame_cleanup :: "world \<Rightarrow> world" where
  "frame_cleanup w = cancelAnimationFrame (frameId w) w"

text \<open>
  What happens to a mounted component and its host. A render gives
  \<open>useAnimationFrame\<close> a new callback, so its effect is cleaned up and run again; the
  effect of \<open>useMousePositionRef\<close> depends on \<open>containerRef\<close> only. \<open>Rerender\<close> is
  the part of a render that concerns the two effects: the style that the render itself
  hands to each letter, the entry of \<open>interpolatedSettingsRef\<close>, is applied by the
  rendering library and is not followed here. At a frame the host
  runs the callbacks requested so far; a pointer event is delivered to the listeners
  registered for its type, \<open>TouchMove\<close> carrying the coordinates of the first touch.
\<close>

datatype event =
  Mount | Rerender | Unmount | AnimationFrame | MouseMove jsnum jsnum | TouchMove jsnum jsnum

fun step :: "(real \<Rightarrow> string) \<Rightarrow> props \<Rightarrow> event \<Rightarrow> world \<Rightarrow> world" where
  "step other p Mount w = frame_effect (mouse_effect w)"
| "step other p Rerender w = frame_effect (frame_cleanup w)"
| "step other p Unmount w = frame_cleanup (mouse_cleanup w)"
| "step other p AnimationFrame w =
     fold (\<lambda>i. loop other p) (animation_frames w) (w\<lparr>animation_frames := []\<rparr>)"
| "step other p (MouseMove x y) w =
     (if (''mousemove'', handleMouseMove) \<in> set (window_listeners w)
      then w\<lparr>eng := updatePosition p x y (eng w)\<rparr> else w)"
| "step other p (TouchMove x y) w =
     (if (''touchmove'', handleTouchMove) \<in> set (window_listeners w)
      then w\<lparr>eng := updatePosition p x y (eng w)\<rparr> else w)"

definition run :: "(real \<Rightarrow> string) \<Rightarrow> props \<Rightarrow> event list \<Rightarrow> world \<Rightarrow> world" where
  "run other p evs w = fold (step other p) evs w"

text \<open>The host before the component is mounted.\<close>

definition unmounted :: "engine \<Rightarrow> nat \<Rightarrow> world" where
  "unmounted e n =
     \<lparr>eng = e, window_listeners = [], animation_frames = [], next_handle = n, frameId = None\<rparr>"

definition browser_event :: "event \<Rightarrow> bool" where
  "browser_event ev = (case ev of Mount \<Rightarrow> False | Rerender \<Rightarrow> False | Unmount \<Rightarrow> False | _ \<Rightarrow> True)"

definition mounted_event :: "event \<Rightarrow> bool" where
  "mounted_event ev = (case ev of Mount \<Rightarrow> False | Unmount \<Rightarrow> False | _ \<Rightarrow> True)"

section \<open>Auxiliary notions for the statements\<close>

text \<open>
  A mounted engine has both listeners registered and exactly one animation frame pending,
  the one whose handle is in \<open>frameId\<close>. After the teardown nothing is registered and
  nothing is pending.
\<close>

definition mounted :: "world \<Rightarrow> bool" where
  "mounted w =
     (window_listeners w = [(''mousemove'', handleMouseMove), (''touchmove'', handleTouchMove)]
      \<and> (\<exists>i. frameId w = Some i \<and> animation_frames w = [i]))"

definition torn_down :: "world \<Rightarrow> bool" where
  "torn_down w = (window_listeners w = [] \<and> animation_frames w = [])"

text \<open>
  A word of an axis specification that needs no care: not empty, and free of white space,
  commas and quote characters.
\<close>

definition plain_word :: "string \<Rightarrow> bool" where
  "plain_word s =
     (s \<noteq> [] \<and> list_all (\<lambda>c. \<not> js_is_space c \<and> c \<noteq> CHR '','' \<and> c \<noteq> squote \<and> c \<noteq> dquote) s)"

text \<open>
  The engine as the page uses it: weight 400 to 800, radius 100, the gaussian curve, no
  container; and an instance with one letter whose box is the square of side 10 at the
  origin while the pointer is at \<open>(205, 5)\<close>.
\<close>

definition page_props :: props where
  "page_props =
     \<lparr>fromFontVariationSettings = squote # ''wght'' @ squote # '' 400'',
      toFontVariationSettings = squote # ''wght'' @ squote # '' 800'',
      radius = Num 100, falloff = ''gaussian'', container = None\<rparr>"

definition far_engine :: engine where
  "far_engine =
     \<lparr>mousePosition = \<lparr>point_x = Num 205, point_y = Num 5\<rparr>,
      lastPosition = None,
      letterRefs = [Some \<lparr>letter_rect = \<lparr>rect_left = Num 0, rect_top = Num 0,
                                          rect_width = Num 10, rect_height = Num 10\<rparr>,
                          fontVariationSettings = []\<rparr>],
      interpolatedSettings = Map.empty\<rparr>"

section \<open>Properties of the falloff curves\<close>

lemma underflow_mono: "a \<le> b \<Longrightarrow> underflow a \<le> underflow b"
  by (auto simp: underflow_def)

lemma underflow_nonneg: "0 \<le> a \<Longrightarrow> 0 \<le> underflow a \<and> underflow a \<le> a"
  by (simp add: underflow_def)


lemma underflow_zero_one: "underflow 0 = 0" "underflow 1 = 1"
  by (simp_all add: underflow_def)

lemma double_range_finite:
  assumes "\<bar>a\<bar> < 2 ^ 1024 - 2 ^ 970"
  shows "double_range (Num a) = Num (underflow a)"
  using assms by simp

lemma double_range_below:
  assumes "\<bar>a\<bar> \<le> 2048"
  shows "double_range (Num a) = Num (underflow a)"
proof -
  have "(2048::real) < 2 ^ 1024 - 2 ^ 970" by simp
  then have "\<bar>a\<bar> < 2 ^ 1024 - 2 ^ 970" using assms by linarith
  then show ?thesis by (rule double_range_finite)
qed

lemma linear_value:
  assumes "0 < r" "0 \<le> d" "d \<le> r"
  shows "calculateFalloff ''linear'' (Num r) (Num d) = Num (underflow (1 - underflow (d / r)))"
proof -
  have q: "0 \<le> d / r" "d / r \<le> 1" using assms by simp_all
  have "\<bar>d / r\<bar> \<le> 2048" using q by linarith
  then have "double_range (Num (d / r)) = Num (underflow (d / r))" by (rule double_range_below)
  then have a: "range_div (Num d) (Num r) = Num (underflow (d / r))"
    using assms by (simp add: range_div_def del: double_range.simps)
  have u: "0 \<le> underflow (d / r)" "underflow (d / r) \<le> 1"
    using underflow_nonneg [OF q(1)] q(2) by simp_all
  then have v: "0 \<le> 1 - underflow (d / r)" "1 - underflow (d / r) \<le> 1" by simp_all
  have "\<bar>1 - underflow (d / r)\<bar> \<le> 2048" using v by linarith
  then have "double_range (Num (1 - underflow (d / r))) = Num (underflow (1 - underflow (d / r)))"
    by (rule double_range_below)
  then have b: "range_sub (Num 1) (Num (underflow (d / r))) = Num (underflow (1 - underflow (d / r)))"
    by (simp add: range_sub_def js_sub_def del: double_range.simps)
  have w: "0 \<le> underflow (1 - underflow (d / r))" "underflow (1 - underflow (d / r)) \<le> 1"
    using underflow_nonneg [OF v(1)] v(2) by simp_all
  show ?thesis using w by (simp add: calculateFalloff_def a b)
qed

text \<open>
  C4. With \<open>falloff = linear\<close> and a radius \<open>r > 0\<close>, the weight is exactly 1 at distance
  0, exactly 0 at distance \<open>r\<close>, and for \<open>0 \<le> d1 \<le> d2 \<le> r\<close> the weight at \<open>d2\<close> is at
  most the weight at \<open>d1\<close>.
\<close>

theorem linear_falloff_endpoints_monotone:
  assumes "0 < r"
  shows "calculateFalloff ''linear'' (Num r) (Num 0) = Num 1
       \<and> calculateFalloff ''linear'' (Num r) (Num r) = Num 0
       \<and> (\<forall>d1 d2. 0 \<le> d1 \<and> d1 \<le> d2 \<and> d2 \<le> r \<longrightarrow>
            (\<exists>w1 w2. calculateFalloff ''linear'' (Num r) (Num d1) = Num w1
                   \<and> calculateFalloff ''linear'' (Num r) (Num d2) = Num w2
                   \<and> w2 \<le> w1))"
proof (intro conjI allI impI)
  show "calculateFalloff ''linear'' (Num r) (Num 0) = Num 1"
    using linear_value [of r 0] assms by (simp add: underflow_zero_one)
  show "calculateFalloff ''linear'' (Num r) (Num r) = Num 0"
    using linear_value [of r r] assms by (simp add: underflow_zero_one)
next
  fix d1 d2 assume h: "0 \<le> d1 \<and> d1 \<le> d2 \<and> d2 \<le> r"
  have a: "calculateFalloff ''linear'' (Num r) (Num d1)
             = Num (underflow (1 - underflow (d1 / r)))"
    using linear_value [of r d1] assms h by simp
  have b: "calculateFalloff ''linear'' (Num r) (Num d2)
             = Num (underflow (1 - underflow (d2 / r)))"
    using linear_value [of r d2] assms h by simp
  have "d1 / r \<le> d2 / r" using assms h by (simp add: divide_right_mono)
  then have "underflow (d1 / r) \<le> underflow (d2 / r)" by (rule underflow_mono)
  then have "1 - underflow (d2 / r) \<le> 1 - underflow (d1 / r)" by simp
  then have "underflow (1 - underflow (d2 / r)) \<le> underflow (1 - underflow (d1 / r))"
    by (rule underflow_mono)
  then show "\<exists>w1 w2. calculateFalloff ''linear'' (Num r) (Num d1) = Num w1
                   \<and> calculateFalloff ''linear'' (Num r) (Num d2) = Num w2
                   \<and> w2 \<le> w1" using a b by simp
qed

theorem linear_falloff_witness:
  "calculateFalloff ''linear'' (Num 50) (Num 0) = Num 1
   \<and> calculateFalloff ''linear'' (Num 50) (Num 50) = Num 0
   \<and> (\<exists>w1 w2. calculateFalloff ''linear'' (Num 50) (Num 10) = Num w1
             \<and> calculateFalloff ''linear'' (Num 50) (Num 40) = Num w2
             \<and> w2 \<le> w1)"
proof -
  have h: "(0::real) < 50" by simp
  note t = linear_falloff_endpoints_monotone [OF h]
  from t have m: "\<forall>d1 d2. 0 \<le> d1 \<and> d1 \<le> d2 \<and> d2 \<le> 50 \<longrightarrow>
            (\<exists>w1 w2. calculateFalloff ''linear'' (Num 50) (Num d1) = Num w1
                   \<and> calculateFalloff ''linear'' (Num 50) (Num d2) = Num w2
                   \<and> w2 \<le> w1)" by simp
  have "(0::real) \<le> 10 \<and> (10::real) \<le> 40 \<and> (40::real) \<le> 50" by simp
  with m have "\<exists>w1 w2. calculateFalloff ''linear'' (Num 50) (Num 10) = Num w1
                   \<and> calculateFalloff ''linear'' (Num 50) (Num 40) = Num w2
                   \<and> w2 \<le> w1" by blast
  with t show ?thesis by simp
qed

subsection \<open>The gaussian curve and the range of the doubles\<close>










text \<open>
  Far from the letter the exponential leaves the range of the doubles: with a radius of 50
  the weight at distance 2000 is \<open>Math.exp(-3200)\<close>, which is \<open>0\<close>. The engine does not
  evaluate the curve there, since it returns before the curve at every distance from the
  radius on.
\<close>

lemma exp_underflow: "exp (- 3200 :: real) < 1 / 2 ^ 1075"
proof -
  have "(2::real) \<le> exp 1" using exp_ge_add_one_self [of "1::real"] by simp
  then have "(2::real) ^ 3200 \<le> exp 1 ^ 3200" by (rule power_mono) simp
  also have "exp (1::real) ^ 3200 = exp 3200" by (simp add: exp_of_nat_mult [symmetric])
  finally have a: "(2::real) ^ 3200 \<le> exp 3200" .
  have "(2::real) ^ 1075 < 2 ^ 3200" by (rule power_strict_increasing) simp_all
  then have "(2::real) ^ 1075 < exp 3200" using a by simp
  then have "1 / exp (3200::real) < 1 / 2 ^ 1075" by (simp add: frac_less2)
  then show ?thesis by (simp add: exp_minus inverse_eq_divide)
qed

lemma js_exp_far: "js_exp (Num (- 3200)) = Num 0"
proof -
  have u: "underflow (exp (- 3200)) = 0" using exp_underflow by (simp add: underflow_def)
  have "exp (- 3200 :: real) \<le> 1" by simp
  moreover have "0 \<le> exp (- 3200 :: real)" by simp
  ultimately have "\<bar>exp (- 3200 :: real)\<bar> \<le> 2048" by linarith
  then have "double_range (Num (exp (- 3200))) = Num (underflow (exp (- 3200)))"
    by (rule double_range_below)
  then show ?thesis using u by simp
qed

lemma gaussian_far_zero: "calculateFalloff ''gaussian'' (Num 50) (Num 2000) = Num 0"
proof -
  have h: "range_div (Num 50) (Num 2) = Num 25" by (simp add: range_div_def underflow_def)
  have q: "range_div (Num 2000) (Num 25) = Num 80" by (simp add: range_div_def underflow_def)
  have s: "range_square (Num 80) = Num 6400" by (simp add: range_square_def underflow_def)
  have a: "range_div (Num (- 6400)) (Num 2) = Num (- 3200)"
    by (simp add: range_div_def underflow_def)
  show ?thesis using js_exp_far by (simp add: calculateFalloff_def h q s a del: js_exp.simps)
qed




section \<open>Properties of the radial hover accent\<close>

lemma sqrt_2025_16: "sqrt (2025 / 16 :: real) = 45 / 4"
  by (rule real_sqrt_unique) (simp_all add: power2_eq_square)

lemma ceiling_205_2: "\<lceil>205 / 2 :: real\<rceil> = 103"
  by (simp add: ceiling_eq_iff)

text \<open>
  C2. For a pill of width 100 and height 40 the layout computes \<open>R = 51.25\<close>,
  \<open>D = 105\<close>, \<open>delta = 41\<close> and \<open>originY = D - delta = 64\<close>.
\<close>

theorem pill_geometry_100_40:
  "pill_geometry (Num 100) (Num 40)
     = \<lparr>geo_R = Num 51.25, geo_D = Num 105, geo_delta = Num 41, geo_originY = Num (105 - 41)\<rparr>"
proof -
  have R: "js_div (js_add (js_div (js_mul (Num 100) (Num 100)) (Num 4)) (js_mul (Num 40) (Num 40)))
             (js_mul (Num 2) (Num 40)) = Num (205 / 4)" by simp
  have D: "js_add (js_ceil (js_mul (Num 2) (Num (205 / 4)))) (Num 2) = Num 105"
    using ceiling_205_2 by simp
  have "(205 / 4 :: real) * (205 / 4) - 100 * 100 / 4 = 2025 / 16" by simp
  then have S: "js_sqrt (js_max (Num 0) (js_sub (js_mul (Num (205 / 4)) (Num (205 / 4)))
              (js_div (js_mul (Num 100) (Num 100)) (Num 4)))) = Num (45 / 4)"
    using sqrt_2025_16 by (simp add: js_sub_def)
  have delta: "js_add (js_ceil (js_sub (Num (205 / 4)) (Num (45 / 4)))) (Num 1) = Num 41"
    by (simp add: js_sub_def)
  show ?thesis
    unfolding pill_geometry_def Let_def R D S delta by (simp add: js_sub_def)
qed

lemma pill_geometry_flat:
  assumes "w \<noteq> 0"
  shows "pill_geometry (Num w) (Num 0)
           = \<lparr>geo_R = PInf, geo_D = PInf, geo_delta = NaN, geo_originY = NaN\<rparr>"
  using assms by (simp add: pill_geometry_def js_sub_def signed_inf_def)

lemma pill_geometry_empty:
  "pill_geometry (Num 0) (Num 0)
     = \<lparr>geo_R = NaN, geo_D = NaN, geo_delta = NaN, geo_originY = NaN\<rparr>"
  by (simp add: pill_geometry_def js_sub_def)

lemma pill_geometry_negative:
  assumes "h < 0"
  shows "geo_R (pill_geometry (Num w) (Num h)) = Num ((w * w / 4 + h * h) / (2 * h))"
  using assms by (simp add: pill_geometry_def Let_def)

text \<open>
  C3, as amended. The layout has no guard on the height: it skips a circle only when the
  circle has no parent element. For a pill of height 0 it computes \<open>R = D = Infinity\<close> and
  \<open>delta = originY = NaN\<close> (all four are NaN when the width is 0 as well); for a negative
  height it evaluates the same formulas, and \<open>R\<close> is \<open>(w\<^sup>2/4 + h\<^sup>2) / (2h)\<close>.
\<close>

theorem layout_has_no_height_guard:
  "(layout_circle parent = None \<longleftrightarrow> parent = None)
   \<and> (w \<noteq> 0 \<longrightarrow>
        layout_circle (Some \<lparr>rect_left = l, rect_top = t, rect_width = Num w, rect_height = Num 0\<rparr>)
          = Some \<lparr>geo_R = PInf, geo_D = PInf, geo_delta = NaN, geo_originY = NaN\<rparr>)
   \<and> layout_circle (Some \<lparr>rect_left = l, rect_top = t, rect_width = Num 0, rect_height = Num 0\<rparr>)
          = Some \<lparr>geo_R = NaN, geo_D = NaN, geo_delta = NaN, geo_originY = NaN\<rparr>
   \<and> (h < 0 \<longrightarrow>
        (\<exists>g. layout_circle (Some \<lparr>rect_left = l, rect_top = t, rect_width = Num w, rect_height = Num h\<rparr>)
                = Some g
            \<and> geo_R g = Num ((w * w / 4 + h * h) / (2 * h))))"
  by (simp add: layout_circle_def pill_geometry_flat pill_geometry_empty pill_geometry_negative
        split: option.splits)

theorem layout_has_no_height_guard_witness:
  "layout_circle None = None
   \<and> layout_circle (Some \<lparr>rect_left = Num 0, rect_top = Num 0, rect_width = Num 100, rect_height = Num 0\<rparr>)
          = Some \<lparr>geo_R = PInf, geo_D = PInf, geo_delta = NaN, geo_originY = NaN\<rparr>
   \<and> (\<exists>g. layout_circle (Some \<lparr>rect_left = Num 0, rect_top = Num 0, rect_width = Num 100, rect_height = Num (- 40)\<rparr>)
                = Some g
          \<and> geo_R g = Num (- 51.25))"
  using layout_has_no_height_guard [of None 100 "Num 0" "Num 0" "- 40"] by simp

text \<open>
  C3, as stated, fails at \<open>w = 100\<close>, \<open>h = 0\<close>: the circle is laid out, with an infinite
  diameter and NaN offsets.
\<close>

theorem layout_flat_pill_counterexample:
  "layout_circle (Some \<lparr>rect_left = Num 0, rect_top = Num 0, rect_width = Num 100, rect_height = Num 0\<rparr>)
     = Some \<lparr>geo_R = PInf, geo_D = PInf, geo_delta = NaN, geo_originY = NaN\<rparr>"
  by (simp add: layout_circle_def pill_geometry_def js_sub_def signed_inf_def)

section \<open>Properties of the proximity text engine\<close>

subsection \<open>Letters outside the radius\<close>

lemma frame_letter_far:
  assumes "js_ge (letter_distance p mouse l) (radius p)"
  shows "frame_letter other p mouse index (Some l) interp
           = (Some (l\<lparr>fontVariationSettings := fromFontVariationSettings p\<rparr>), interp)"
  using assms by (simp add: frame_letter_def)

lemma frame_letter_other_index:
  "n \<noteq> index \<Longrightarrow> snd (frame_letter other p mouse index r interp) n = interp n"
  by (simp add: frame_letter_def Let_def split: option.splits)

lemma frame_loop_below:
  "n < k \<Longrightarrow> snd (frame_loop other p mouse k refs interp) n = interp n"
proof (induction refs arbitrary: k interp)
  case Nil
  then show ?case by simp
next
  case (Cons r refs)
  have "snd (frame_loop other p mouse (Suc k) refs (snd (frame_letter other p mouse k r interp))) n
          = snd (frame_letter other p mouse k r interp) n"
    using Cons.prems by (intro Cons.IH) simp
  also have "\<dots> = interp n" using Cons.prems by (simp add: frame_letter_other_index)
  finally show ?case by (simp add: split_def Let_def)
qed

lemma frame_loop_far:
  assumes "i < length refs" "refs ! i = Some l" "js_ge (letter_distance p mouse l) (radius p)"
  shows "fst (frame_loop other p mouse k refs interp) ! i
           = Some (l\<lparr>fontVariationSettings := fromFontVariationSettings p\<rparr>)
       \<and> snd (frame_loop other p mouse k refs interp) (k + i) = interp (k + i)"
  using assms
proof (induction refs arbitrary: k interp i)
  case Nil
  then show ?case by simp
next
  case (Cons r refs)
  show ?case
  proof (cases i)
    case 0
    then have r: "r = Some l" using Cons.prems by simp
    show ?thesis using 0 r Cons.prems(3)
      by (simp add: split_def Let_def frame_letter_far frame_loop_below)
  next
    case (Suc j)
    then have j: "j < length refs" "refs ! j = Some l" using Cons.prems by simp_all
    note ih = Cons.IH [OF j Cons.prems(3), of "Suc k" "snd (frame_letter other p mouse k r interp)"]
    show ?thesis using Suc ih by (simp add: split_def Let_def frame_letter_other_index)
  qed
qed

text \<open>
  C1. On a frame, every letter whose distance from the pointer sample to its centre is at
  least the radius gets the \<open>from\<close> specification, verbatim, as its style, and its entry
  in the array of interpolated settings is left as it was.
\<close>

theorem far_letter_reset:
  assumes "i < length (letterRefs e)" "letterRefs e ! i = Some l"
    and "js_ge (letter_distance p (mousePosition e) l) (radius p)"
  shows "letterRefs (animation_frame other p e) ! i
           = Some (l\<lparr>fontVariationSettings := fromFontVariationSettings p\<rparr>)
       \<and> interpolatedSettings (animation_frame other p e) i = interpolatedSettings e i"
  using frame_loop_far [OF assms, of other 0 "interpolatedSettings e"]
  by (simp add: animation_frame_def split_def Let_def)

lemma sqrt_40000: "sqrt (40000 :: real) = 200"
  by (rule real_sqrt_unique) simp_all

lemma far_engine_distance:
  "letter_distance page_props (mousePosition far_engine)
     \<lparr>letter_rect = \<lparr>rect_left = Num 0, rect_top = Num 0, rect_width = Num 10, rect_height = Num 10\<rparr>,
      fontVariationSettings = []\<rparr> = Num 200"
  by (simp add: letter_distance_def letter_center_def calculateDistance_def page_props_def
        far_engine_def js_sub_def sqrt_40000)

theorem far_letter_reset_witness:
  "letterRefs (animation_frame (\<lambda>r. []) page_props far_engine) ! 0
     = Some \<lparr>letter_rect = \<lparr>rect_left = Num 0, rect_top = Num 0, rect_width = Num 10, rect_height = Num 10\<rparr>,
             fontVariationSettings = squote # ''wght'' @ squote # '' 400''\<rparr>
   \<and> interpolatedSettings (animation_frame (\<lambda>r. []) page_props far_engine) 0 = None"
proof -
  let ?l = "\<lparr>letter_rect = \<lparr>rect_left = Num 0, rect_top = Num 0, rect_width = Num 10, rect_height = Num 10\<rparr>,
             fontVariationSettings = []\<rparr>"
  have a: "0 < length (letterRefs far_engine)" by (simp add: far_engine_def)
  have b: "letterRefs far_engine ! 0 = Some ?l" by (simp add: far_engine_def)
  have c: "js_ge (letter_distance page_props (mousePosition far_engine) ?l) (radius page_props)"
    by (simp add: far_engine_distance) (simp add: page_props_def)
  show ?thesis using far_letter_reset [OF a b c, of "\<lambda>r. []"]
    by (simp add: page_props_def far_engine_def)
qed

subsection \<open>Parsing and formatting the axis specifications\<close>

lemma map_set_keys:
  "map fst (map_set m k v) = (if k \<in> fst ` set m then map fst m else map fst m @ [k])"
  by (induction m) (force+)

lemma map_set_key_set: "fst ` set (map_set m k v) = insert k (fst ` set m)"
proof -
  have "set (map fst (map_set m k v)) = insert k (set (map fst m))"
    by (simp only: map_set_keys) auto
  then show ?thesis by simp
qed

lemma map_set_distinct:
  "distinct (map fst m) \<Longrightarrow> distinct (map fst (map_set m k v))"
  by (simp add: map_set_keys)

lemma foldl_map_set_keys:
  "fst ` set (foldl (\<lambda>m (k, v). map_set m k v) acc es) = fst ` set acc \<union> fst ` set es"
  by (induction es arbitrary: acc) (simp_all add: map_set_key_set split_def)

lemma foldl_map_set_distinct:
  "distinct (map fst acc) \<Longrightarrow> distinct (map fst (foldl (\<lambda>m (k, v). map_set m k v) acc es))"
  by (induction es arbitrary: acc) (simp_all add: map_set_distinct split_def)

lemma new_Map_keys: "fst ` set (new_Map es) = fst ` set es"
  by (simp add: new_Map_def foldl_map_set_keys)

lemma new_Map_distinct: "distinct (map fst (new_Map es))"
  by (simp add: new_Map_def foldl_map_set_distinct)

lemma new_Map_lookup_None: "a \<notin> fst ` set es \<Longrightarrow> map_of (new_Map es) a = None"
  by (simp add: map_of_eq_None_iff new_Map_keys)

lemma axis_parsed: "map axis (parsedSettings f t) = map fst (parseSettings f)"
  by (simp add: parsedSettings_def Let_def split_def comp_def)

text \<open>
  C7, as amended. The parsed axes are exactly the axes named by the entries of the
  \<open>from\<close> specification, one entry for each; an axis named only by the \<open>to\<close>
  specification has no entry; and an axis of \<open>from\<close> that \<open>to\<close> does not name has
  \<open>toValue = fromValue\<close>. Its interpolated value is its \<open>fromValue\<close> at every finite
  weight when that value is a finite number; it is NaN at every weight when that value is
  an infinity or NaN, and NaN at the weight NaN.
\<close>

theorem parsed_axes_follow_from_spec:
  "set (map axis (parsedSettings f t)) = fst ` set (spec_entries f)
   \<and> distinct (map axis (parsedSettings f t))
   \<and> (\<forall>a. a \<in> fst ` set (spec_entries t) \<and> a \<notin> fst ` set (spec_entries f)
          \<longrightarrow> a \<notin> set (map axis (parsedSettings f t)))
   \<and> (\<forall>x \<in> set (parsedSettings f t). axis x \<notin> fst ` set (spec_entries t)
          \<longrightarrow> toValue x = fromValue x
              \<and> (\<forall>r w. fromValue x = Num r \<longrightarrow> interpolatedValue (Num w) x = Num r)
              \<and> (\<forall>w. (\<forall>r. fromValue x \<noteq> Num r) \<longrightarrow> interpolatedValue w x = NaN)
              \<and> interpolatedValue NaN x = NaN)"
proof -
  have a: "set (map axis (parsedSettings f t)) = fst ` set (spec_entries f)"
    by (simp add: axis_parsed parseSettings_def new_Map_keys)
  have b: "distinct (map axis (parsedSettings f t))"
    by (simp only: axis_parsed parseSettings_def new_Map_distinct)
  have c: "toValue x = fromValue x"
    if "x \<in> set (parsedSettings f t)" "axis x \<notin> fst ` set (spec_entries t)" for x
    using that new_Map_lookup_None [of "axis x" "spec_entries t"]
    by (auto simp: parsedSettings_def Let_def parseSettings_def)
  have d: "interpolatedValue (Num w) x = Num r"
    if "toValue x = fromValue x" "fromValue x = Num r" for x w r
    using that by (simp add: interpolatedValue_def js_sub_def)
  have e: "interpolatedValue w x = NaN"
    if "toValue x = fromValue x" "\<forall>r. fromValue x \<noteq> Num r" for x w
    using that by (cases "fromValue x") (simp_all add: interpolatedValue_def js_sub_def)
  have g: "interpolatedValue NaN x = NaN" for x
    by (cases "fromValue x"; cases "js_sub (toValue x) (fromValue x)")
      (simp_all add: interpolatedValue_def)
  have n: "\<forall>a. a \<in> fst ` set (spec_entries t) \<and> a \<notin> fst ` set (spec_entries f)
          \<longrightarrow> a \<notin> set (map axis (parsedSettings f t))"
    by (simp only: a) blast
  have m: "\<forall>x \<in> set (parsedSettings f t). axis x \<notin> fst ` set (spec_entries t)
          \<longrightarrow> toValue x = fromValue x
              \<and> (\<forall>r w. fromValue x = Num r \<longrightarrow> interpolatedValue (Num w) x = Num r)
              \<and> (\<forall>w. (\<forall>r. fromValue x \<noteq> Num r) \<longrightarrow> interpolatedValue w x = NaN)
              \<and> interpolatedValue NaN x = NaN"
  proof (intro ballI impI)
    fix x assume x: "x \<in> set (parsedSettings f t)" "axis x \<notin> fst ` set (spec_entries t)"
    have tf: "toValue x = fromValue x" using x by (rule c)
    show "toValue x = fromValue x
              \<and> (\<forall>r w. fromValue x = Num r \<longrightarrow> interpolatedValue (Num w) x = Num r)
              \<and> (\<forall>w. (\<forall>r. fromValue x \<noteq> Num r) \<longrightarrow> interpolatedValue w x = NaN)
              \<and> interpolatedValue NaN x = NaN"
      using tf d [OF tf] e [OF tf] g by blast
  qed
  show ?thesis using a b n m by (intro conjI)
qed

text \<open>
  C7, as stated, fails for an infinite value: with the \<open>from\<close> specification
  \<open>wght Infinity\<close> and a \<open>to\<close> specification that does not name \<open>wght\<close>, the axis has
  \<open>toValue = fromValue = Infinity\<close>, and its interpolated value at weight \<open>1/2\<close> is NaN.
\<close>

lemma infinite_axis_parsed:
  "parsedSettings ''wght Infinity'' ''wdth 1''
     = [\<lparr>axis = ''wght'', fromValue = PInf, toValue = PInf\<rparr>]"
  by (simp add: spec_entries_def parseSettings_def parsedSettings_def new_Map_def
        parse_entry_def js_trim_def js_is_space_def strip_quotes_def squote_def dquote_def
        parseFloat_def read_sign_def read_exponent_def is_digit_def digits_value_def Let_def
        underflow_def)

theorem infinite_axis_counterexample:
  "parsedSettings ''wght Infinity'' ''wdth 1''
     = [\<lparr>axis = ''wght'', fromValue = PInf, toValue = PInf\<rparr>]
   \<and> interpolatedValue (Num (1 / 2)) \<lparr>axis = ''wght'', fromValue = PInf, toValue = PInf\<rparr> = NaN"
  by (simp only: infinite_axis_parsed) (simp add: interpolatedValue_def js_sub_def)

lemmas parse_eval = spec_entries_def parseSettings_def parsedSettings_def new_Map_def
  parse_entry_def js_trim_def js_is_space_def strip_quotes_def squote_def dquote_def
  parseFloat_def read_sign_def read_exponent_def is_digit_def digits_value_def Let_def
  underflow_def

lemma two_axes_parsed:
  "parsedSettings (squote # ''wght'' @ squote # '' 400, '' @ squote # ''wdth'' @ squote # '' 100'')
     (squote # ''wght'' @ squote # '' 800, '' @ squote # ''opsz'' @ squote # '' 14'')
   = [\<lparr>axis = ''wght'', fromValue = Num 400, toValue = Num 800\<rparr>,
      \<lparr>axis = ''wdth'', fromValue = Num 100, toValue = Num 100\<rparr>]"
  by (simp add: parse_eval)

lemma two_axes_entries:
  "spec_entries (squote # ''wght'' @ squote # '' 400, '' @ squote # ''wdth'' @ squote # '' 100'')
     = [(''wght'', Num 400), (''wdth'', Num 100)]"
  "spec_entries (squote # ''wght'' @ squote # '' 800, '' @ squote # ''opsz'' @ squote # '' 14'')
     = [(''wght'', Num 800), (''opsz'', Num 14)]"
  by (simp_all add: parse_eval)

theorem parsed_axes_witness:
  "map axis (parsedSettings (squote # ''wght'' @ squote # '' 400, '' @ squote # ''wdth'' @ squote # '' 100'')
     (squote # ''wght'' @ squote # '' 800, '' @ squote # ''opsz'' @ squote # '' 14'')) = [''wght'', ''wdth'']
   \<and> ''opsz'' \<notin> set (map axis (parsedSettings (squote # ''wght'' @ squote # '' 400, '' @ squote # ''wdth'' @ squote # '' 100'')
     (squote # ''wght'' @ squote # '' 800, '' @ squote # ''opsz'' @ squote # '' 14'')))
   \<and> toValue \<lparr>axis = ''wdth'', fromValue = Num 100, toValue = Num 100\<rparr> = Num 100
   \<and> interpolatedValue (Num (1 / 2)) \<lparr>axis = ''wdth'', fromValue = Num 100, toValue = Num 100\<rparr> = Num 100"
proof -
  let ?f = "squote # ''wght'' @ squote # '' 400, '' @ squote # ''wdth'' @ squote # '' 100''"
  let ?t = "squote # ''wght'' @ squote # '' 800, '' @ squote # ''opsz'' @ squote # '' 14''"
  let ?x = "\<lparr>axis = ''wdth'', fromValue = Num 100, toValue = Num 100\<rparr>"
  note t = parsed_axes_follow_from_spec [of ?f ?t]
  have o: "''opsz'' \<in> fst ` set (spec_entries ?t) \<and> ''opsz'' \<notin> fst ` set (spec_entries ?f)"
    by (simp only: two_axes_entries) simp
  from t have "\<forall>a. a \<in> fst ` set (spec_entries ?t) \<and> a \<notin> fst ` set (spec_entries ?f)
          \<longrightarrow> a \<notin> set (map axis (parsedSettings ?f ?t))" by blast
  with o have no: "''opsz'' \<notin> set (map axis (parsedSettings ?f ?t))" by blast
  have x: "?x \<in> set (parsedSettings ?f ?t)" by (simp only: two_axes_parsed) simp
  have nx: "axis ?x \<notin> fst ` set (spec_entries ?t)" by (simp only: two_axes_entries) simp
  from t have "\<forall>x \<in> set (parsedSettings ?f ?t). axis x \<notin> fst ` set (spec_entries ?t)
          \<longrightarrow> toValue x = fromValue x
              \<and> (\<forall>r w. fromValue x = Num r \<longrightarrow> interpolatedValue (Num w) x = Num r)" by blast
  with x nx have v: "toValue ?x = fromValue ?x
      \<and> (\<forall>r w. fromValue ?x = Num r \<longrightarrow> interpolatedValue (Num w) ?x = Num r)" by blast
  then have i: "interpolatedValue (Num (1 / 2)) ?x = Num 100" by simp
  show ?thesis using no v i unfolding two_axes_parsed by simp
qed

lemma wght_parsed:
  "parsedSettings (squote # ''wght'' @ squote # '' 400'') (squote # ''wght'' @ squote # '' 800'')
     = [\<lparr>axis = ''wght'', fromValue = Num 400, toValue = Num 800\<rparr>]"
  by (simp add: parse_eval)

lemma digits_400_800: "nat_digits 400 = ''400''" "nat_digits 800 = ''800''"
  by (simp_all add: nat_digits.simps digit_char_def)

text \<open>
  C6. With the \<open>from\<close> specification \<open>'wght' 400\<close> and the \<open>to\<close> specification
  \<open>'wght' 800\<close>, the style string at weight 0 is \<open>'wght' 400\<close> and the style string at
  weight 1 is \<open>'wght' 800\<close>.
\<close>

theorem wght_round_trip:
  "newSettings other
     (parsedSettings (squote # ''wght'' @ squote # '' 400'') (squote # ''wght'' @ squote # '' 800''))
     (Num 0) = squote # ''wght'' @ squote # '' 400''
   \<and> newSettings other
     (parsedSettings (squote # ''wght'' @ squote # '' 400'') (squote # ''wght'' @ squote # '' 800''))
     (Num 1) = squote # ''wght'' @ squote # '' 800''"
  unfolding wght_parsed
  by (simp add: newSettings_def format_axis_def interpolatedValue_def js_sub_def
        number_to_string_def digits_400_800)

subsection \<open>The gaussian curve at the least radius\<close>




subsection \<open>Quote characters around the axis name\<close>

lemma split_on_nonempty: "split_on c s \<noteq> []"
  by (induction s) (auto split: list.splits)

lemma split_on_absent: "c \<notin> set s \<Longrightarrow> split_on c s = [s]"
  by (induction s) auto

lemma split_on_once: "c \<notin> set a \<Longrightarrow> split_on c (a @ c # b) = a # split_on c b"
  by (induction a) (auto split: list.splits)

lemma js_trim_id:
  assumes "s \<noteq> []" "\<not> js_is_space (hd s)" "\<not> js_is_space (last s)"
  shows "js_trim s = s"
proof -
  have a: "dropWhile js_is_space s = s" using assms by (cases s) auto
  have "rev s \<noteq> []" "\<not> js_is_space (hd (rev s))" using assms by (simp_all add: hd_rev)
  then have b: "dropWhile js_is_space (rev s) = rev s" by (cases "rev s") auto
  show ?thesis by (simp add: js_trim_def a b)
qed

lemma space_is_space: "js_is_space CHR '' ''"
  by (simp add: js_is_space_def)

lemma not_space_quotes: "\<not> js_is_space squote" "\<not> js_is_space dquote"
  by (simp_all add: js_is_space_def squote_def dquote_def)

lemma strip_quotes_plain:
  assumes "plain_word n"
  shows "strip_quotes n = n" "strip_quotes (squote # n @ [squote]) = n" "strip_quotes (dquote # n @ [dquote]) = n"
  using assms by (auto simp: plain_word_def strip_quotes_def list_all_iff filter_id_conv)

lemma plainD:
  assumes "plain_word s"
  shows "s \<noteq> []" "CHR '' '' \<notin> set s" "CHR '','' \<notin> set s" "\<not> js_is_space (hd s)" "\<not> js_is_space (last s)"
  using assms space_is_space by (auto simp: plain_word_def list_all_iff)

lemma entry_of_pair:
  assumes n: "CHR '' '' \<notin> set a" and v: "plain_word v"
  shows "parse_entry (a @ CHR '' '' # v) = (strip_quotes a, parseFloat (Some v))"
  using n plainD(2) [OF v] by (simp add: parse_entry_def split_on_once split_on_absent)

lemma spec_of_pair:
  assumes a: "a \<noteq> []" "\<not> js_is_space (hd a)" "CHR '' '' \<notin> set a" "CHR '','' \<notin> set a" and v: "plain_word v"
  shows "spec_entries (a @ CHR '' '' # v) = [(strip_quotes a, parseFloat (Some v))]"
proof -
  let ?s = "a @ CHR '' '' # v"
  have c: "CHR '','' \<notin> set ?s" using a plainD(3) [OF v] by simp
  have "hd ?s = hd a" "last ?s = last v" using a plainD(1) [OF v] by simp_all
  then have t: "js_trim ?s = ?s" using a plainD [OF v] by (intro js_trim_id) simp_all
  show ?thesis
    by (simp only: spec_entries_def split_on_absent [OF c] list.map t entry_of_pair [OF a(3) v])
qed

lemma new_Map_single: "new_Map [(k, v)] = [(k, v)]"
  by (simp add: new_Map_def)

lemma quoting_irrelevant:
  assumes "plain_word n" "plain_word v"
  shows "parseSettings (squote # n @ squote # CHR '' '' # v) = [(n, parseFloat (Some v))]"
    and "parseSettings (dquote # n @ dquote # CHR '' '' # v) = [(n, parseFloat (Some v))]"
    and "parseSettings (n @ CHR '' '' # v) = [(n, parseFloat (Some v))]"
proof -
  note p = plainD [OF assms(1)]
  have q: "CHR '' '' \<noteq> squote" "CHR '' '' \<noteq> dquote" "CHR '','' \<noteq> squote" "CHR '','' \<noteq> dquote"
    by (simp_all add: squote_def dquote_def)
  have "spec_entries ((squote # n @ [squote]) @ CHR '' '' # v)
          = [(strip_quotes (squote # n @ [squote]), parseFloat (Some v))]"
    using p q not_space_quotes by (intro spec_of_pair assms) auto
  then show "parseSettings (squote # n @ squote # CHR '' '' # v) = [(n, parseFloat (Some v))]"
    by (simp add: parseSettings_def new_Map_single strip_quotes_plain [OF assms(1)])
  have "spec_entries ((dquote # n @ [dquote]) @ CHR '' '' # v)
          = [(strip_quotes (dquote # n @ [dquote]), parseFloat (Some v))]"
    using p q not_space_quotes by (intro spec_of_pair assms) auto
  then show "parseSettings (dquote # n @ dquote # CHR '' '' # v) = [(n, parseFloat (Some v))]"
    by (simp add: parseSettings_def new_Map_single strip_quotes_plain [OF assms(1)])
  have "spec_entries (n @ CHR '' '' # v) = [(strip_quotes n, parseFloat (Some v))]"
    using p by (intro spec_of_pair assms) auto
  then show "parseSettings (n @ CHR '' '' # v) = [(n, parseFloat (Some v))]"
    by (simp add: parseSettings_def new_Map_single strip_quotes_plain [OF assms(1)])
qed

lemma entry_no_quotes: "squote \<notin> set (fst (parse_entry s)) \<and> dquote \<notin> set (fst (parse_entry s))"
  by (simp add: parse_entry_def strip_quotes_def split: list.splits)

lemma spec_entries_no_quotes:
  assumes "e \<in> set (spec_entries s)"
  shows "squote \<notin> set (fst e) \<and> dquote \<notin> set (fst e)"
  using assms entry_no_quotes by (auto simp: spec_entries_def)


lemma parsed_no_quotes:
  assumes "x \<in> set (parsedSettings f t)"
  shows "squote \<notin> set (axis x) \<and> dquote \<notin> set (axis x)"
proof -
  have "axis x \<in> set (map axis (parsedSettings f t))" using assms by simp
  then have "axis x \<in> fst ` set (spec_entries f)"
    by (simp add: axis_parsed parseSettings_def new_Map_keys)
  then obtain e where "e \<in> set (spec_entries f)" "axis x = fst e" by auto
  then show ?thesis using spec_entries_no_quotes [of e f] by simp
qed

text \<open>
  C10. Whatever the specifications are, the style string of a letter inside the radius is
  the list of the parsed axes, each as its name between single quotes, a space and the
  number, joined by a comma and a space; no axis name contains a quote character; and a
  specification of one axis parses to the same entry whether its name is written between
  single quotes, between double quotes or bare.
\<close>

theorem style_string_format:
  "newSettings other (parsedSettings f t) w
     = js_join '', ''
         (map (\<lambda>x. squote # axis x @ squote # CHR '' '' # number_to_string other (interpolatedValue w x))
            (parsedSettings f t))
   \<and> (\<forall>x \<in> set (parsedSettings f t). squote \<notin> set (axis x) \<and> dquote \<notin> set (axis x))
   \<and> (plain_word n \<and> plain_word v \<longrightarrow>
         parseSettings (squote # n @ squote # CHR '' '' # v) = [(n, parseFloat (Some v))]
       \<and> parseSettings (dquote # n @ dquote # CHR '' '' # v) = [(n, parseFloat (Some v))]
       \<and> parseSettings (n @ CHR '' '' # v) = [(n, parseFloat (Some v))])"
proof -
  have "format_axis other w
          = (\<lambda>x. squote # axis x @ squote # CHR '' '' # number_to_string other (interpolatedValue w x))"
    by (rule ext) (simp add: format_axis_def)
  then have a: "newSettings other (parsedSettings f t) w
     = js_join '', ''
         (map (\<lambda>x. squote # axis x @ squote # CHR '' '' # number_to_string other (interpolatedValue w x))
            (parsedSettings f t))" by (simp add: newSettings_def)
  show ?thesis using a parsed_no_quotes quoting_irrelevant by blast
qed

lemma wght_plain: "plain_word ''wght''" "plain_word ''400''"
  by (simp_all add: plain_word_def js_is_space_def squote_def dquote_def)

lemma dquote_parsed:
  "parsedSettings (dquote # ''wght'' @ dquote # '' 400'') ''wght 800''
     = [\<lparr>axis = ''wght'', fromValue = Num 400, toValue = Num 800\<rparr>]"
  by (simp add: parse_eval)

theorem style_string_format_witness:
  "newSettings (\<lambda>r. []) (parsedSettings (dquote # ''wght'' @ dquote # '' 400'') ''wght 800'') (Num 1)
     = squote # ''wght'' @ squote # '' 800''
   \<and> squote \<notin> set ''wght'' \<and> dquote \<notin> set ''wght''
   \<and> parseSettings (squote # ''wght'' @ squote # '' 400'') = [(''wght'', parseFloat (Some ''400''))]
   \<and> parseSettings (dquote # ''wght'' @ dquote # '' 400'') = [(''wght'', parseFloat (Some ''400''))]
   \<and> parseSettings ''wght 400'' = [(''wght'', parseFloat (Some ''400''))]"
proof -
  let ?f = "dquote # ''wght'' @ dquote # '' 400''"
  let ?x = "\<lparr>axis = ''wght'', fromValue = Num 400, toValue = Num 800\<rparr>"
  note t = style_string_format [of "\<lambda>r. []" ?f "''wght 800''" "Num 1" "''wght''" "''400''"]
  have x: "?x \<in> set (parsedSettings ?f ''wght 800'')" by (simp only: dquote_parsed) simp
  from t have "\<forall>x \<in> set (parsedSettings ?f ''wght 800''). squote \<notin> set (axis x) \<and> dquote \<notin> set (axis x)"
    by blast
  with x have q: "squote \<notin> set (axis ?x) \<and> dquote \<notin> set (axis ?x)" by blast
  from t wght_plain have p:
    "parseSettings (squote # ''wght'' @ squote # CHR '' '' # ''400'') = [(''wght'', parseFloat (Some ''400''))]
     \<and> parseSettings (dquote # ''wght'' @ dquote # CHR '' '' # ''400'') = [(''wght'', parseFloat (Some ''400''))]
     \<and> parseSettings (''wght'' @ CHR '' '' # ''400'') = [(''wght'', parseFloat (Some ''400''))]"
    by blast
  from t have "newSettings (\<lambda>r. []) (parsedSettings ?f ''wght 800'') (Num 1)
     = js_join '', ''
         (map (\<lambda>x. squote # axis x @ squote # CHR '' '' # number_to_string (\<lambda>r. []) (interpolatedValue (Num 1) x))
            (parsedSettings ?f ''wght 800''))" by blast
  then have s: "newSettings (\<lambda>r. []) (parsedSettings ?f ''wght 800'') (Num 1) = squote # ''wght'' @ squote # '' 800''"
    unfolding dquote_parsed
    by (simp add: interpolatedValue_def js_sub_def number_to_string_def digits_400_800)
  show ?thesis using s q p by simp
qed

subsection \<open>Splitting the label\<close>

lemma join_split: "js_join [c] (split_on c s) = s"
proof (induction s)
  case Nil
  then show ?case by simp
next
  case (Cons x xs)
  obtain w ws where sp: "split_on c xs = w # ws"
    using split_on_nonempty [of c xs] by (cases "split_on c xs") auto
  show ?case
  proof (cases "x = c")
    case True
    then show ?thesis using Cons sp by simp
  next
    case False
    then show ?thesis using Cons sp by (cases ws) simp_all
  qed
qed

lemma split_on_pieces: "w \<in> set (split_on c s) \<Longrightarrow> c \<notin> set w"
proof (induction s arbitrary: w)
  case Nil
  then show ?case by simp
next
  case (Cons x xs)
  then show ?case by (auto split: if_splits list.splits)
qed

lemma split_on_concat: "concat (split_on c s) = filter (\<lambda>x. x \<noteq> c) s"
  by (induction s) (auto split: list.splits)

lemma flat_Cons:
  "flat_spans (\<lparr>letters = ls, nbsp = b\<rparr> # ws)
     = map (\<lambda>(i, c). Glyph i c) ls @ (if b then [Separator] else []) @ flat_spans ws"
  by (simp add: flat_spans_def)

lemma flat_Nil: "flat_spans [] = []"
  by (simp add: flat_spans_def)

lemma chars_of_glyphs:
  "length is = length w \<Longrightarrow> map (rendered_char \<circ> (\<lambda>(i, c). Glyph i c)) (zip is w) = w"
  by (induction "is" w rule: list_induct2) simp_all

lemma indices_append: "glyph_indices (xs @ ys) = glyph_indices xs @ glyph_indices ys"
  by (induction xs rule: glyph_indices.induct) simp_all

lemma indices_of_glyphs:
  "length is = length w \<Longrightarrow> glyph_indices (map (\<lambda>(i, c). Glyph i c) (zip is w)) = is"
  by (induction "is" w rule: list_induct2) simp_all

lemma render_chars:
  "map rendered_char (flat_spans (render_words k ws)) = js_join '' '' ws"
proof (induction ws arbitrary: k)
  case Nil
  then show ?case by (simp add: flat_Nil)
next
  case (Cons w ws)
  then show ?case by (cases ws) (simp_all add: flat_Cons flat_Nil chars_of_glyphs)
qed

lemma render_indices:
  "glyph_indices (flat_spans (render_words k ws)) = [k ..< k + length (concat ws)]"
proof (induction ws arbitrary: k)
  case Nil
  then show ?case by (simp add: flat_Nil)
next
  case (Cons w ws)
  have "glyph_indices (flat_spans (render_words k (w # ws)))
          = [k ..< k + length w] @ glyph_indices (flat_spans (render_words (k + length w) ws))"
    by (simp add: flat_Cons indices_append indices_of_glyphs)
  also have "\<dots> = [k ..< k + length w] @ [k + length w ..< k + length w + length (concat ws)]"
    by (simp only: Cons)
  also have "\<dots> = [k ..< k + length w + length (concat ws)]"
    using upt_add_eq_append [of k "k + length w" "length (concat ws)"] by simp
  also have "k + length w + length (concat ws) = k + length (concat (w # ws))"
    by simp
  finally show ?case .
qed

lemma render_glyph_chars:
  "Glyph i c \<in> set (flat_spans (render_words k ws)) \<Longrightarrow> \<exists>w \<in> set ws. c \<in> set w"
proof (induction ws arbitrary: k)
  case Nil
  then show ?case by (simp add: flat_Nil)
next
  case (Cons w ws)
  then show ?case by (auto simp: flat_Cons dest: set_zip_rightD split: if_splits)
qed

lemma separators_are_spaces:
  assumes "\<forall>i c. Glyph i c \<in> set rs \<longrightarrow> c \<noteq> CHR '' ''"
  shows "length (filter (\<lambda>r. r = Separator) rs)
           = length (filter (\<lambda>c. c = CHR '' '') (map rendered_char rs))"
proof -
  have "filter ((\<lambda>c. c = CHR '' '') \<circ> rendered_char) rs = filter (\<lambda>r. r = Separator) rs"
  proof (rule filter_cong [OF refl])
    fix r assume m: "r \<in> set rs"
    show "((\<lambda>c. c = CHR '' '') \<circ> rendered_char) r = (r = Separator)"
    proof (cases r)
      case (Glyph i c)
      then show ?thesis using m assms by auto
    next
      case Separator
      then show ?thesis by simp
    qed
  qed
  then show ?thesis by (simp add: filter_map)
qed

text \<open>
  C8, as amended. Every space character of the label is a word separator of its own. The
  rendered spans follow the label character by character: a space is rendered as one span
  holding a no-break space, which has no glyph index and no reference, and so is not
  visited by the frame loop; every other character, white space other than the space
  included, is rendered as a glyph; and the glyph indices are \<open>0, 1, 2, \<dots>\<close> in order.
\<close>

theorem label_spans_follow_label:
  "map rendered_char (flat_spans (render_label label)) = label
   \<and> glyph_indices (flat_spans (render_label label))
       = [0 ..< length (filter (\<lambda>c. c \<noteq> CHR '' '') label)]
   \<and> (\<forall>i c. Glyph i c \<in> set (flat_spans (render_label label)) \<longrightarrow> c \<noteq> CHR '' '')
   \<and> length (filter (\<lambda>r. r = Separator) (flat_spans (render_label label)))
       = length (filter (\<lambda>c. c = CHR '' '') label)"
proof -
  have a: "map rendered_char (flat_spans (render_label label)) = label"
    using join_split [of "CHR '' ''" label] by (simp add: render_label_def render_chars)
  have b: "glyph_indices (flat_spans (render_label label))
       = [0 ..< length (filter (\<lambda>c. c \<noteq> CHR '' '') label)]"
    by (simp add: render_label_def render_indices split_on_concat)
  have c: "\<forall>i c. Glyph i c \<in> set (flat_spans (render_label label)) \<longrightarrow> c \<noteq> CHR '' ''"
  proof (intro allI impI)
    fix i c assume "Glyph i c \<in> set (flat_spans (render_label label))"
    then obtain w where "w \<in> set (split_on CHR '' '' label)" "c \<in> set w"
      unfolding render_label_def by (blast dest: render_glyph_chars)
    then show "c \<noteq> CHR '' ''" using split_on_pieces by blast
  qed
  have d: "length (filter (\<lambda>r. r = Separator) (flat_spans (render_label label)))
       = length (filter (\<lambda>c. c = CHR '' '') label)"
    using separators_are_spaces [OF c] by (simp only: a)
  show ?thesis using a b c d by blast
qed

lemma spans_of_a_b:
  "flat_spans (render_label ''a b'') = [Glyph 0 CHR ''a'', Separator, Glyph 1 CHR ''b'']"
  by (simp add: render_label_def flat_spans_def upt_conv_Cons)

theorem label_spans_witness:
  "map rendered_char (flat_spans (render_label ''a b'')) = ''a b''
   \<and> glyph_indices (flat_spans (render_label ''a b'')) = [0, 1]
   \<and> CHR ''b'' \<noteq> CHR '' ''"
proof -
  note t = label_spans_follow_label [of "''a b''"]
  have g: "Glyph 1 CHR ''b'' \<in> set (flat_spans (render_label ''a b''))"
    by (simp only: spans_of_a_b) simp
  from t have "\<forall>i c. Glyph i c \<in> set (flat_spans (render_label ''a b'')) \<longrightarrow> c \<noteq> CHR '' ''"
    by blast
  with g have c: "CHR ''b'' \<noteq> CHR '' ''" by blast
  from t have a: "map rendered_char (flat_spans (render_label ''a b'')) = ''a b''" by blast
  from t have "glyph_indices (flat_spans (render_label ''a b''))
       = [0 ..< length (filter (\<lambda>c. c \<noteq> CHR '' '') ''a b'')]" by blast
  then have b: "glyph_indices (flat_spans (render_label ''a b'')) = [0, 1]"
    by (simp add: upt_conv_Cons)
  show ?thesis using a b c by blast
qed

text \<open>
  C8, as stated, fails: the run of two spaces in \<open>a  b\<close> is rendered as two separators,
  and the tab in the label of \<open>a\<close>, tab, \<open>b\<close> is a glyph, with index 1 and a reference.
\<close>

theorem label_whitespace_counterexample:
  "flat_spans (render_label ''a  b'')
     = [Glyph 0 CHR ''a'', Separator, Separator, Glyph 1 CHR ''b'']
   \<and> flat_spans (render_label [CHR ''a'', CHR 0x09, CHR ''b''])
     = [Glyph 0 CHR ''a'', Glyph 1 (CHR 0x09), Glyph 2 CHR ''b'']
   \<and> js_is_space (CHR 0x09)"
  by (simp add: render_label_def flat_spans_def upt_conv_Cons js_is_space_def)

section \<open>Properties of the teardown\<close>

lemma mount_mounted: "mounted (step other p Mount (unmounted e n))"
  by (simp add: mounted_def unmounted_def mouse_effect_def frame_effect_def addEventListener_def
        requestAnimationFrame_def)

lemma step_mounted:
  assumes "mounted w" "mounted_event ev"
  shows "mounted (step other p ev w)"
proof (cases ev)
  case Rerender
  then show ?thesis using assms
    by (auto simp: mounted_def frame_effect_def frame_cleanup_def cancelAnimationFrame_def
          requestAnimationFrame_def)
next
  case AnimationFrame
  then show ?thesis using assms
    by (auto simp: mounted_def loop_def requestAnimationFrame_def Let_def)
qed (use assms in \<open>auto simp: mounted_def mounted_event_def\<close>)

lemma run_mounted:
  assumes "mounted w" "\<forall>ev \<in> set evs. mounted_event ev"
  shows "mounted (run other p evs w)"
  using assms unfolding run_def
  by (induction evs arbitrary: w) (simp_all add: step_mounted)

lemma unmount_torn_down: "mounted w \<Longrightarrow> torn_down (step other p Unmount w)"
  by (auto simp: mounted_def torn_down_def mouse_cleanup_def frame_cleanup_def
        removeEventListener_def cancelAnimationFrame_def)

lemma step_torn_down:
  assumes "torn_down w" "browser_event ev"
  shows "step other p ev w = w"
  using assms by (cases ev) (auto simp: torn_down_def browser_event_def)

lemma run_torn_down:
  assumes "torn_down w" "\<forall>ev \<in> set evs. browser_event ev"
  shows "run other p evs w = w"
  using assms unfolding run_def
  by (induction evs) (simp_all add: step_torn_down)

text \<open>
  C9. Mount the engine, let it run through any renders, frames and pointer events, and
  unmount it. Then no animation frame is pending and no listener is registered, and
  whatever frames and pointer events the host delivers afterwards leave the whole state,
  the styles of the letters included, as the unmount left it.
\<close>

theorem nothing_runs_after_unmount:
  assumes "\<forall>ev \<in> set before. mounted_event ev" and "\<forall>ev \<in> set after. browser_event ev"
  shows "animation_frames (run other p (Mount # before @ [Unmount]) (unmounted e n)) = []
       \<and> window_listeners (run other p (Mount # before @ [Unmount]) (unmounted e n)) = []
       \<and> run other p (Mount # before @ Unmount # after) (unmounted e n)
           = run other p (Mount # before @ [Unmount]) (unmounted e n)"
proof -
  let ?w = "run other p before (step other p Mount (unmounted e n))"
  have "mounted ?w" using mount_mounted assms(1) by (rule run_mounted)
  then have t: "torn_down (step other p Unmount ?w)" by (rule unmount_torn_down)
  have u: "run other p (Mount # before @ [Unmount]) (unmounted e n) = step other p Unmount ?w"
    by (simp add: run_def)
  have a: "run other p (Mount # before @ Unmount # after) (unmounted e n)
          = run other p after (step other p Unmount ?w)"
    by (simp add: run_def)
  show ?thesis using t run_torn_down [OF t assms(2)] by (simp only: u a) (simp add: torn_down_def)
qed

theorem nothing_runs_after_unmount_witness:
  "animation_frames
     (run (\<lambda>r. []) page_props
        (Mount # [MouseMove (Num 5) (Num 5), AnimationFrame, Rerender, AnimationFrame] @ [Unmount])
        (unmounted far_engine 1)) = []
   \<and> window_listeners
     (run (\<lambda>r. []) page_props
        (Mount # [MouseMove (Num 5) (Num 5), AnimationFrame, Rerender, AnimationFrame] @ [Unmount])
        (unmounted far_engine 1)) = []
   \<and> run (\<lambda>r. []) page_props
        (Mount # [MouseMove (Num 5) (Num 5), AnimationFrame, Rerender, AnimationFrame]
           @ Unmount # [MouseMove (Num 3) (Num 4), AnimationFrame, TouchMove (Num 1) (Num 2)])
        (unmounted far_engine 1)
     = run (\<lambda>r. []) page_props
        (Mount # [MouseMove (Num 5) (Num 5), AnimationFrame, Rerender, AnimationFrame] @ [Unmount])
        (unmounted far_engine 1)"
proof -
  have b: "\<forall>ev \<in> set [MouseMove (Num 5) (Num 5), AnimationFrame, Rerender, AnimationFrame].
             mounted_event ev"
    by (simp add: mounted_event_def)
  have a: "\<forall>ev \<in> set [MouseMove (Num 3) (Num 4), AnimationFrame, TouchMove (Num 1) (Num 2)].
             browser_event ev"
    by (simp add: browser_event_def)
  show ?thesis by (rule nothing_runs_after_unmount [OF b a])
qed

end
